theory Spec2Isabelle
  imports Complex_Main "HOL-Library.Char_ord" "HOL-Library.List_Lexorder"
begin

section \<open>Values, exceptions and tables\<close>

text \<open>
  The program is a FastAPI service (\<^verbatim>\<open>main.py\<close>): \<^verbatim>\<open>get_db_data\<close> queries the store,
  resamples the rows to an hourly grid with pandas and is memoised by
  \<^verbatim>\<open>functools.lru_cache(maxsize=32)\<close>; three handlers build charts from the table.

  Timestamps are integers counting seconds; an hour is 3600 of them and a day 86400.
  Floating-point numbers are idealised as reals.
\<close>

type_synonym timestamp = int

text \<open>
  The path parameter \<^verbatim>\<open>org_id\<close> reaches \<^verbatim>\<open>get_db_data\<close> as a Python \<^verbatim>\<open>str\<close> (handlers
  without a type annotation) or as a Python \<^verbatim>\<open>int\<close> (\<^verbatim>\<open>energy_summary(org_id: int)\<close>).
\<close>

datatype py_value = PyStr string | PyInt int

text \<open>
  Exceptions: \<^verbatim>\<open>HTTPException(status_code, detail)\<close>, the failure of the store
  (raised by \<^verbatim>\<open>pd.read_sql\<close>), and the exceptions pandas and the chart library raise,
  each with its message.
\<close>

datatype exn =
    HTTPException nat string
  | DataAccessError string
  | ValueError string
  | KeyError string
  | ChartError string

text \<open>A row as the query returns it: the five selected columns.\<close>

record consumption_record =
  row_start_time :: timestamp
  row_energy_kwh :: real
  row_source :: string
  row_cost :: real
  row_org_name :: string

text \<open>
  A pandas \<^verbatim>\<open>DataFrame\<close> with the five columns, held column by column; \<open>None\<close> is a
  missing cell (\<^verbatim>\<open>NaN\<close>). After \<^verbatim>\<open>reset_index()\<close> the hourly index is the column
  \<^verbatim>\<open>start_time\<close>.
\<close>

record data_frame =
  start_time :: "timestamp list"
  energy_kwh :: "real option list"
  cost :: "real option list"
  source :: "string option list"
  org_name :: "string option list"

definition empty_frame :: data_frame where
  "empty_frame = \<lparr>start_time = [], energy_kwh = [], cost = [], source = [], org_name = []\<rparr>"

definition df_empty :: "data_frame \<Rightarrow> bool" where
  "df_empty df = (start_time df = [])"

section \<open>The resampler (lines 57 to 69 of \<^verbatim>\<open>get_db_data\<close>)\<close>

definition floor_hour :: "timestamp \<Rightarrow> timestamp" where
  "floor_hour t = t - t mod 3600"

text \<open>
  \<^verbatim>\<open>resample('h')\<close> bins the index from the hour of its least timestamp to the hour of its
  greatest one (\<^verbatim>\<open>ax.min()\<close>, \<^verbatim>\<open>ax.max()\<close>), one label per hour, closed and labelled on the
  left.
\<close>

definition date_range :: "timestamp \<Rightarrow> timestamp \<Rightarrow> timestamp list" where
  "date_range first final =
     map (\<lambda>i. first + 3600 * int i) [0..<nat ((final - first) div 3600 + 1)]"

definition ts_min :: "consumption_record list \<Rightarrow> timestamp" where
  "ts_min rows = (case map row_start_time rows of [] \<Rightarrow> 0 | t # ts \<Rightarrow> fold min ts t)"

definition ts_max :: "consumption_record list \<Rightarrow> timestamp" where
  "ts_max rows = (case map row_start_time rows of [] \<Rightarrow> 0 | t # ts \<Rightarrow> fold max ts t)"

definition hour_bins :: "consumption_record list \<Rightarrow> timestamp list" where
  "hour_bins rows =
     (if rows = [] then [] else date_range (floor_hour (ts_min rows)) (floor_hour (ts_max rows)))"

definition in_bin :: "timestamp \<Rightarrow> consumption_record \<Rightarrow> bool" where
  "in_bin H r = (H \<le> row_start_time r \<and> row_start_time r < H + 3600)"

text \<open>\<^verbatim>\<open>.mean()\<close> of a bin: the arithmetic mean of its values, \<^verbatim>\<open>NaN\<close> for a bin without rows.\<close>

definition mean :: "real list \<Rightarrow> real option" where
  "mean vs = (if vs = [] then None else Some (sum_list vs / real (length vs)))"

definition resample_mean :: "(consumption_record \<Rightarrow> real) \<Rightarrow> consumption_record list \<Rightarrow> real option list" where
  "resample_mean col rows = map (\<lambda>H. mean (map col (filter (in_bin H) rows))) (hour_bins rows)"

text \<open>
  \<^verbatim>\<open>.resample('h').ffill()\<close> is an upsampling: pandas reindexes the frame on the hourly
  labels with \<^verbatim>\<open>method='ffill'\<close>, so the label \<open>H\<close> takes the last row whose timestamp is at
  most \<open>H\<close>, and no value when there is none. Reindexing with a method raises
  \<^verbatim>\<open>ValueError\<close> on an index with duplicates. When the index already has the frequency of
  one hour (pandas infers a frequency from three or more timestamps, all one hour apart),
  pandas copies the frame and only replaces its index by the labels. The rows arrive
  ordered by timestamp (\<^verbatim>\<open>ORDER BY ec.start_time\<close>).
\<close>

definition asof :: "consumption_record list \<Rightarrow> timestamp \<Rightarrow> consumption_record option" where
  "asof rows H =
     (case filter (\<lambda>r. row_start_time r \<le> H) rows of [] \<Rightarrow> None | x # xs \<Rightarrow> Some (last (x # xs)))"

definition inferred_freq_hourly :: "timestamp list \<Rightarrow> bool" where
  "inferred_freq_hourly ts = (3 \<le> length ts \<and> list_all (\<lambda>(a, b). b - a = 3600) (zip ts (tl ts)))"

definition resample_ffill :: "(consumption_record \<Rightarrow> string) \<Rightarrow> consumption_record list \<Rightarrow> exn + string option list" where
  "resample_ffill col rows =
     (let ts = map row_start_time rows; res_index = hour_bins rows in
      if inferred_freq_hourly ts \<and> length rows = length res_index then Inr (map (\<lambda>r. Some (col r)) rows)
      else if \<not> distinct ts then Inl (ValueError ''cannot reindex a non-unique index with a method or limit'')
      else Inr (map (\<lambda>H. map_option col (asof rows H)) res_index))"

text \<open>\<^verbatim>\<open>df.ffill()\<close>: in each column a missing cell takes the last value above it, if any.\<close>

fun ffill_from :: "'a option \<Rightarrow> 'a option list \<Rightarrow> 'a option list" where
  "ffill_from prev [] = []"
| "ffill_from prev (None # xs) = prev # ffill_from prev xs"
| "ffill_from prev (Some v # xs) = Some v # ffill_from (Some v) xs"

definition ffill :: "'a option list \<Rightarrow> 'a option list" where
  "ffill xs = ffill_from None xs"

text \<open>
  \<^verbatim>\<open>Series.mode()\<close>: the most frequent values among the cells that are not missing, in
  ascending order; \<^verbatim>\<open>[0]\<close> takes the first and raises \<^verbatim>\<open>KeyError\<close> when there is none.
\<close>

definition series_mode :: "string option list \<Rightarrow> string list" where
  "series_mode col =
     (let vs = List.map_filter (\<lambda>c. c) col;
          m = fold max (map (count_list vs) vs) 0
      in sort (remdups (filter (\<lambda>v. count_list vs v = m) vs)))"

definition mode_first :: "string option list \<Rightarrow> exn + string" where
  "mode_first col = (case series_mode col of [] \<Rightarrow> Inl (KeyError ''0'') | n # ns \<Rightarrow> Inr n)"

text \<open>
  Lines 57 to 66: the table after \<^verbatim>\<open>pd.concat([numeric_df, categorical_df], axis=1)\<close>,
  \<^verbatim>\<open>reset_index()\<close> and \<^verbatim>\<open>df.ffill()\<close>. Both parts carry the same hourly index.
\<close>

definition filled_df :: "consumption_record list \<Rightarrow> exn + data_frame" where
  "filled_df rows =
     (case resample_ffill row_source rows of
        Inl e \<Rightarrow> Inl e
      | Inr src \<Rightarrow>
          (case resample_ffill row_org_name rows of
             Inl e \<Rightarrow> Inl e
           | Inr org \<Rightarrow>
               Inr \<lparr>start_time = hour_bins rows,
                    energy_kwh = ffill (resample_mean row_energy_kwh rows),
                    cost = ffill (resample_mean row_cost rows),
                    source = ffill src,
                    org_name = ffill org\<rparr>))"

text \<open>
  The whole block: an empty result of the query is returned as it is; otherwise the filled
  table, with line 69 setting every cell of \<^verbatim>\<open>org_name\<close> to the first mode of the column.
\<close>

definition resampler :: "consumption_record list \<Rightarrow> exn + data_frame" where
  "resampler rows =
     (if rows = [] then Inr empty_frame
      else case filled_df rows of
             Inl e \<Rightarrow> Inl e
           | Inr df \<Rightarrow>
               (case mode_first (org_name df) of
                  Inl e \<Rightarrow> Inl e
                | Inr n \<Rightarrow> Inr (df\<lparr>org_name := map (\<lambda>c. Some n) (org_name df)\<rparr>)))"

section \<open>Python text: \<^verbatim>\<open>str\<close> and \<^verbatim>\<open>repr\<close>\<close>

definition digit_char :: "nat \<Rightarrow> char" where
  "digit_char n = ''0123456789abcdef'' ! n"

fun show_nat :: "nat \<Rightarrow> string" where
  "show_nat n = (if n < 10 then [digit_char n] else show_nat (n div 10) @ [digit_char (n mod 10)])"

declare show_nat.simps [simp del]

definition show_int :: "int \<Rightarrow> string" where
  "show_int i = (if i < 0 then CHR ''-'' # show_nat (nat (- i)) else show_nat (nat i))"

text \<open>
  \<^verbatim>\<open>repr\<close> of a \<^verbatim>\<open>str\<close>: single quotes around the text, double quotes when the text has a
  single quote and no double quote; the backslash, the chosen quote, newline, carriage
  return and tab are escaped with a backslash, the other ASCII control characters as
  \<^verbatim>\<open>\xNN\<close>. Characters are bytes here; bytes from 128 on are kept.
\<close>

definition escape_char :: "char \<Rightarrow> char \<Rightarrow> string" where
  "escape_char q c =
     (if c = CHR 0x5C then [CHR 0x5C, CHR 0x5C]
      else if c = q then [CHR 0x5C, q]
      else if c = CHR 0x0A then [CHR 0x5C, CHR ''n'']
      else if c = CHR 0x0D then [CHR 0x5C, CHR ''r'']
      else if c = CHR 0x09 then [CHR 0x5C, CHR ''t'']
      else if (of_char c :: nat) < 32 \<or> (of_char c :: nat) = 127
        then [CHR 0x5C, CHR ''x'', digit_char (of_char c div 16), digit_char (of_char c mod 16)]
      else [c])"

definition repr_str :: "string \<Rightarrow> string" where
  "repr_str s =
     (let q = (if CHR 0x27 \<in> set s \<and> CHR 0x22 \<notin> set s then CHR 0x22 else CHR 0x27)
      in q # concat (map (escape_char q) s) @ [q])"

fun repr :: "py_value \<Rightarrow> string" where
  "repr (PyStr s) = repr_str s"
| "repr (PyInt i) = show_int i"

text \<open>\<^verbatim>\<open>str\<close> of the one-element set \<^verbatim>\<open>{org_id}\<close>: the \<^verbatim>\<open>repr\<close> of the element in braces.\<close>

definition str_set1 :: "py_value \<Rightarrow> string" where
  "str_set1 v = ''{'' @ repr v @ ''}''"

text \<open>
  \<^verbatim>\<open>str(e)\<close> of an exception: its message; Starlette's \<^verbatim>\<open>HTTPException\<close> prints as
  \<^verbatim>\<open>f"{status_code}: {detail}"\<close>.
\<close>

fun str_exn :: "exn \<Rightarrow> string" where
  "str_exn (HTTPException code detail) = show_nat code @ '': '' @ detail"
| "str_exn (DataAccessError m) = m"
| "str_exn (ValueError m) = m"
| "str_exn (KeyError m) = m"
| "str_exn (ChartError m) = m"

section \<open>The environment of a request\<close>

text \<open>
  What the program reads from outside: the clock (\<^verbatim>\<open>datetime.now()\<close>), the store behind
  \<^verbatim>\<open>pd.read_sql(query, conn, params=(org_id, start_time, end_time))\<close>, which returns the
  rows of the query or raises, and the chart library, which builds the figure or raises.
\<close>

datatype chart_kind = Line | Bar | Scatter

record figure =
  fig_kind :: chart_kind
  fig_title :: string
  fig_x :: "timestamp list"
  fig_y :: "real option list"
  fig_color :: "string option list"
  fig_size :: "real option list"

record env =
  now :: timestamp
  read_sql :: "py_value \<Rightarrow> timestamp \<Rightarrow> timestamp \<Rightarrow> exn + consumption_record list"
  px_raises :: "figure \<Rightarrow> exn option"

section \<open>\<^verbatim>\<open>get_db_data\<close>\<close>

definition DEFAULT_TIME_RANGE :: int where
  "DEFAULT_TIME_RANGE = 7"

text \<open>
  The body of \<^verbatim>\<open>get_db_data\<close>: the query over the window of \<^verbatim>\<open>days\<close> days ending now, then
  the resampler; every exception raised inside the \<^verbatim>\<open>try\<close> becomes
  \<^verbatim>\<open>HTTPException(status_code=500, detail=f"Database error: {str(e)}")\<close>.
\<close>

definition get_db_data :: "env \<Rightarrow> py_value \<Rightarrow> int \<Rightarrow> exn + data_frame" where
  "get_db_data e org_id days =
     (case read_sql e org_id (now e - days * 86400) (now e) of
        Inl ex \<Rightarrow> Inl (HTTPException 500 (''Database error: '' @ str_exn ex))
      | Inr rows \<Rightarrow>
          (case resampler rows of
             Inl ex \<Rightarrow> Inl (HTTPException 500 (''Database error: '' @ str_exn ex))
           | Inr df \<Rightarrow> Inr df))"

section \<open>The memoization table: \<^verbatim>\<open>@lru_cache(maxsize=32)\<close>\<close>

text \<open>
  A key is the argument tuple of the call: \<^verbatim>\<open>org_id\<close>, and \<^verbatim>\<open>days\<close> when it is passed.
  The cache stores references to the tables \<^verbatim>\<open>get_db_data\<close> returned; the tables live in
  a heap of objects. \<open>entries\<close> is the cache's linked list, the least recently used entry
  first; \<open>hits\<close> and \<open>misses\<close> are the counters of \<^verbatim>\<open>cache_info()\<close>, and \<open>misses\<close> counts the
  calls of the wrapped function.
\<close>

type_synonym cache_key = "py_value \<times> int option"

type_synonym ref = nat

record app_state =
  entries :: "(cache_key \<times> ref) list"
  hits :: nat
  misses :: nat
  heap :: "ref \<Rightarrow> data_frame"
  next_ref :: ref

definition init_state :: app_state where
  "init_state = \<lparr>entries = [], hits = 0, misses = 0, heap = (\<lambda>r. empty_frame), next_ref = 0\<rparr>"

text \<open>
  The wrapper of \<^verbatim>\<open>functools.lru_cache\<close>. A hit moves the entry to the most recent end and
  returns the stored object. A miss calls the function; an exception passes through and
  nothing is stored; a result is stored as the most recent entry, in place of the oldest
  entry when the cache is full. With \<^verbatim>\<open>maxsize=0\<close> nothing is stored.
\<close>

definition lru_cache_wrapper ::
  "nat \<Rightarrow> (cache_key \<Rightarrow> exn + data_frame) \<Rightarrow> app_state \<Rightarrow> cache_key \<Rightarrow> (exn + ref) \<times> app_state" where
  "lru_cache_wrapper maxsize user_function s key =
     (if maxsize = 0 then
        (case user_function key of
           Inl ex \<Rightarrow> (Inl ex, s\<lparr>misses := misses s + 1\<rparr>)
         | Inr df \<Rightarrow>
             (Inr (next_ref s),
              s\<lparr>misses := misses s + 1, heap := (heap s)(next_ref s := df),
                next_ref := next_ref s + 1\<rparr>))
      else
        (case map_of (entries s) key of
           Some r \<Rightarrow>
             (Inr r,
              s\<lparr>entries := filter (\<lambda>(k, r'). k \<noteq> key) (entries s) @ [(key, r)],
                hits := hits s + 1\<rparr>)
         | None \<Rightarrow>
             (case user_function key of
                Inl ex \<Rightarrow> (Inl ex, s\<lparr>misses := misses s + 1\<rparr>)
              | Inr df \<Rightarrow>
                  (Inr (next_ref s),
                   s\<lparr>entries := (if maxsize \<le> length (entries s) then tl (entries s)
                                  else entries s) @ [(key, next_ref s)],
                     misses := misses s + 1, heap := (heap s)(next_ref s := df),
                     next_ref := next_ref s + 1\<rparr>))))"

definition get_db_data_args :: "env \<Rightarrow> cache_key \<Rightarrow> exn + data_frame" where
  "get_db_data_args e key =
     get_db_data e (fst key) (case snd key of None \<Rightarrow> DEFAULT_TIME_RANGE | Some d \<Rightarrow> d)"

definition maxsize :: nat where
  "maxsize = 32"

definition cached_get_db_data :: "env \<Rightarrow> app_state \<Rightarrow> cache_key \<Rightarrow> (exn + ref) \<times> app_state" where
  "cached_get_db_data e s key = lru_cache_wrapper maxsize (get_db_data_args e) s key"

text \<open>A sequence of calls of a cached function, each with the function as it behaves then.\<close>

fun lru_run ::
  "nat \<Rightarrow> app_state \<Rightarrow> ((cache_key \<Rightarrow> exn + data_frame) \<times> cache_key) list \<Rightarrow> app_state" where
  "lru_run m s [] = s"
| "lru_run m s (c # cs) = lru_run m (snd (lru_cache_wrapper m (fst c) s (snd c))) cs"

section \<open>The chart endpoints\<close>

text \<open>
  The title \<^verbatim>\<open>f"Energy Consumption - {df['org_name'][0] if not df.empty else {org_id}}"\<close>:
  the first organization name of a table with rows, and the set \<^verbatim>\<open>{org_id}\<close> otherwise.
\<close>

definition chart_title :: "data_frame \<Rightarrow> py_value \<Rightarrow> exn + string" where
  "chart_title df org_id =
     (if \<not> df_empty df then
        (case org_name df of
           [] \<Rightarrow> Inl (KeyError ''0'')
         | c # cs \<Rightarrow> Inr (''Energy Consumption - '' @ (case c of None \<Rightarrow> ''nan'' | Some n \<Rightarrow> n)))
      else Inr (''Energy Consumption - '' @ str_set1 org_id))"

text \<open>
  A handler's \<^verbatim>\<open>except Exception as e: raise HTTPException(status_code=400, detail=str(e))\<close>
  around the whole body, and the status of the response: 200 with the chart, the status of
  the \<^verbatim>\<open>HTTPException\<close> otherwise.
\<close>

definition bad_request :: "exn \<Rightarrow> exn" where
  "bad_request ex = HTTPException 400 (str_exn ex)"

fun status_code :: "exn + figure \<Rightarrow> nat" where
  "status_code (Inr fig) = 200"
| "status_code (Inl (HTTPException code detail)) = code"
| "status_code (Inl ex) = 500"

definition render :: "env \<Rightarrow> figure \<Rightarrow> exn + figure" where
  "render e fig = (case px_raises e fig of Some ex \<Rightarrow> Inl (bad_request ex) | None \<Rightarrow> Inr fig)"

definition energy_consumption :: "env \<Rightarrow> app_state \<Rightarrow> string \<Rightarrow> (exn + figure) \<times> app_state" where
  "energy_consumption e s org_id =
     (case cached_get_db_data e s (PyStr org_id, None) of
        (Inl ex, s') \<Rightarrow> (Inl (bad_request ex), s')
      | (Inr r, s') \<Rightarrow>
          (case chart_title (heap s' r) (PyStr org_id) of
             Inl ex \<Rightarrow> (Inl (bad_request ex), s')
           | Inr title \<Rightarrow>
               (render e \<lparr>fig_kind = Line, fig_title = title, fig_x = start_time (heap s' r),
                          fig_y = energy_kwh (heap s' r), fig_color = source (heap s' r),
                          fig_size = []\<rparr>, s')))"

text \<open>
  The daily costs: \<^verbatim>\<open>groupby([pd.Grouper(key='start_time', freq='D'), 'source'])['cost'].sum()\<close>
  drops the rows without a source, groups the others by day and source in ascending order
  of the keys, and adds up the costs that are present. The result is a new table.
\<close>

definition floor_day :: "timestamp \<Rightarrow> timestamp" where
  "floor_day t = t - t mod 86400"

definition keyed_costs :: "data_frame \<Rightarrow> (timestamp \<times> string \<times> real) list" where
  "keyed_costs df =
     concat (map (\<lambda>(t, s, c). case s of None \<Rightarrow> []
                                | Some src \<Rightarrow> [(floor_day t, src, case c of None \<Rightarrow> 0 | Some x \<Rightarrow> x)])
                 (zip (start_time df) (zip (source df) (cost df))))"

definition daily_cost :: "data_frame \<Rightarrow> (timestamp \<times> string \<times> real) list" where
  "daily_cost df =
     (let kc = keyed_costs df in
      concat (map (\<lambda>d. map (\<lambda>src. (d, src, sum_list (map (\<lambda>(d', s', c). c)
                                           (filter (\<lambda>(d', s', c). d' = d \<and> s' = src) kc))))
                         (sort (remdups (map (\<lambda>(d', s', c). s') (filter (\<lambda>(d', s', c). d' = d) kc)))))
                  (sort (remdups (map fst kc)))))"

definition energy_cost :: "env \<Rightarrow> app_state \<Rightarrow> string \<Rightarrow> (exn + figure) \<times> app_state" where
  "energy_cost e s org_id =
     (case cached_get_db_data e s (PyStr org_id, None) of
        (Inl ex, s') \<Rightarrow> (Inl (bad_request ex), s')
      | (Inr r, s') \<Rightarrow>
          (let daily = daily_cost (heap s' r) in
           case chart_title (heap s' r) (PyStr org_id) of
             Inl ex \<Rightarrow> (Inl (bad_request ex), s')
           | Inr title \<Rightarrow>
               (render e \<lparr>fig_kind = Bar, fig_title = title, fig_x = map fst daily,
                          fig_y = map (\<lambda>(d, src, c). Some c) daily,
                          fig_color = map (\<lambda>(d, src, c). Some src) daily,
                          fig_size = []\<rparr>, s')))"

text \<open>\<^verbatim>\<open>energy_summary(org_id: int)\<close>: the framework has converted the path parameter.\<close>

definition energy_summary :: "env \<Rightarrow> app_state \<Rightarrow> int \<Rightarrow> (exn + figure) \<times> app_state" where
  "energy_summary e s org_id =
     (case cached_get_db_data e s (PyInt org_id, None) of
        (Inl ex, s') \<Rightarrow> (Inl (bad_request ex), s')
      | (Inr r, s') \<Rightarrow>
          (case chart_title (heap s' r) (PyInt org_id) of
             Inl ex \<Rightarrow> (Inl (bad_request ex), s')
           | Inr title \<Rightarrow>
               (render e \<lparr>fig_kind = Scatter, fig_title = title, fig_x = start_time (heap s' r),
                          fig_y = energy_kwh (heap s' r), fig_color = source (heap s' r),
                          fig_size = cost (heap s' r)\<rparr>, s')))"

section \<open>Example inputs\<close>












text \<open>
  Environments: a store that holds two records for every organization, a store that
  cannot be reached, and a store without records; in each the chart library builds every
  figure.
\<close>

definition rows_two :: "consumption_record list" where
  "rows_two =
     [\<lparr>row_start_time = 36000, row_energy_kwh = 2, row_source = ''solar'', row_cost = 1,
        row_org_name = ''Acme''\<rparr>,
      \<lparr>row_start_time = 39600, row_energy_kwh = 4, row_source = ''grid'', row_cost = 3,
        row_org_name = ''Acme''\<rparr>]"

definition df_two :: data_frame where
  "df_two =
     \<lparr>start_time = [36000, 39600],
      energy_kwh = [Some 2, Some 4],
      cost = [Some 1, Some 3],
      source = [Some ''solar'', Some ''grid''],
      org_name = [Some ''Acme'', Some ''Acme'']\<rparr>"

definition env_data :: env where
  "env_data = \<lparr>now = 86400, read_sql = (\<lambda>org t1 t2. Inr rows_two), px_raises = (\<lambda>fig. None)\<rparr>"

definition env_down :: env where
  "env_down = \<lparr>now = 90000,
                read_sql = (\<lambda>org t1 t2. Inl (DataAccessError ''connection refused'')),
                px_raises = (\<lambda>fig. None)\<rparr>"

definition env_none :: env where
  "env_none = \<lparr>now = 86400, read_sql = (\<lambda>org t1 t2. Inr []), px_raises = (\<lambda>fig. None)\<rparr>"

text \<open>The state after one successful request for the organization \<^verbatim>\<open>'1'\<close>.\<close>

definition state_one :: app_state where
  "state_one = \<lparr>entries = [((PyStr ''1'', None), 0)], hits = 0, misses = 1,
                 heap = (\<lambda>r. empty_frame)(0 := df_two), next_ref = 1\<rparr>"

text \<open>A function that returns an empty table for every key, and three keys.\<close>

definition always_empty :: "cache_key \<Rightarrow> exn + data_frame" where
  "always_empty key = Inr empty_frame"

definition key_A :: cache_key where
  "key_A = (PyStr ''A'', None)"

definition key_B :: cache_key where
  "key_B = (PyStr ''B'', None)"

definition key_C :: cache_key where
  "key_C = (PyStr ''C'', None)"

section \<open>The hourly index\<close>


lemma ts_max_eq: "rows \<noteq> [] \<Longrightarrow> ts_max rows = Max (row_start_time ` set rows)"
  by (cases rows) (simp_all add: ts_max_def Max.set_eq_fold [symmetric])



lemma ts_max_ge: "r \<in> set rows \<Longrightarrow> row_start_time r \<le> ts_max rows"
  by (cases "rows = []") (simp_all add: ts_max_eq)






lemma floor_hour_unique:
  assumes "H mod 3600 = 0" "H \<le> t" "t < H + 3600"
  shows "floor_hour t = H"
proof -
  have "t mod 3600 = (t - H) mod 3600"
    using assms(1) by (metis diff_zero mod_diff_right_eq)
  also have "\<dots> = t - H" using assms(2,3) by simp
  finally show ?thesis by (simp add: floor_hour_def)
qed












section \<open>Forward fill\<close>

lemma length_ffill_from [simp]: "length (ffill_from p xs) = length xs"
  by (induction p xs rule: ffill_from.induct) simp_all

lemma length_ffill [simp]: "length (ffill xs) = length xs"
  by (simp add: ffill_def)



section \<open>The shape of a successful run\<close>



lemma length_resample_mean [simp]: "length (resample_mean col rows) = length (hour_bins rows)"
  by (simp add: resample_mean_def)



section \<open>Populated cells\<close>










section \<open>Forward fill of the categorical columns\<close>






section \<open>The mode of the organization names\<close>






section \<open>The wrapper, case by case\<close>

lemma wrapper_hit:
  assumes "0 < m" and "map_of (entries s) key = Some r"
  shows "lru_cache_wrapper m f s key =
           (Inr r, s\<lparr>entries := filter (\<lambda>(k, r'). k \<noteq> key) (entries s) @ [(key, r)],
                     hits := hits s + 1\<rparr>)"
  using assms by (simp add: lru_cache_wrapper_def)

lemma wrapper_miss_raise:
  assumes "0 < m" and "map_of (entries s) key = None" and "f key = Inl ex"
  shows "lru_cache_wrapper m f s key = (Inl ex, s\<lparr>misses := misses s + 1\<rparr>)"
  using assms by (simp add: lru_cache_wrapper_def)

lemma wrapper_miss_store:
  assumes "0 < m" and "map_of (entries s) key = None" and "f key = Inr df"
  shows "lru_cache_wrapper m f s key =
           (Inr (next_ref s),
            s\<lparr>entries := (if m \<le> length (entries s) then tl (entries s) else entries s)
                             @ [(key, next_ref s)],
              misses := misses s + 1, heap := (heap s)(next_ref s := df),
              next_ref := next_ref s + 1\<rparr>)"
  using assms by (simp add: lru_cache_wrapper_def)

lemma map_of_moved:
  "map_of (filter (\<lambda>(k, r'). k \<noteq> key) es @ [(key, r)]) key = Some r"
proof -
  have "key \<notin> fst ` set (filter (\<lambda>(k, r'). k \<noteq> key) es)" by auto
  then have "map_of (filter (\<lambda>(k, r'). k \<noteq> key) es) key = None"
    by (metis map_of_eq_None_iff)
  then show ?thesis by (simp add: map_add_def)
qed

lemma map_of_stored:
  assumes "map_of es key = None"
  shows "map_of ((if m \<le> length es then tl es else es) @ [(key, r)]) key = Some r"
proof -
  have "key \<notin> fst ` set es" using assms by (metis map_of_eq_None_iff)
  moreover have "set (tl es) \<subseteq> set es" by (cases es) auto
  ultimately have "key \<notin> fst ` set (if m \<le> length es then tl es else es)" by auto
  then have "map_of (if m \<le> length es then tl es else es) key = None"
    by (metis map_of_eq_None_iff)
  then show ?thesis by (simp add: map_add_def)
qed

lemma wrapper_returns_held:
  assumes "0 < m" and "lru_cache_wrapper m f s key = (Inr r, s1)"
  shows "map_of (entries s1) key = Some r"
proof (cases "map_of (entries s) key")
  case (Some r')
  have "r' = r" "entries s1 = filter (\<lambda>(k, r'). k \<noteq> key) (entries s) @ [(key, r')]"
    using assms(2) wrapper_hit [OF assms(1) Some, of f] by auto
  then show ?thesis using map_of_moved [of key "entries s" r] by simp
next
  case None
  show ?thesis
  proof (cases "f key")
    case (Inl ex)
    then show ?thesis using assms wrapper_miss_raise [of m s key f ex] None by simp
  next
    case (Inr df)
    have "r = next_ref s"
      "entries s1 = (if m \<le> length (entries s) then tl (entries s) else entries s)
                             @ [(key, next_ref s)]"
      using assms wrapper_miss_store [of m s key f df] None Inr by auto
    then show ?thesis using map_of_stored [OF None, of m r] by simp
  qed
qed

lemma wrapper_heap_old:
  assumes "r < next_ref s"
  shows "heap (snd (lru_cache_wrapper m f s key)) r = heap s r"
  using assms by (auto simp: lru_cache_wrapper_def split: option.splits sum.splits)

lemma maxsize_pos: "0 < maxsize"
  by (simp add: maxsize_def)

lemma cached_hit:
  assumes "map_of (entries s) key = Some r"
  shows "cached_get_db_data e s key =
           (Inr r, s\<lparr>entries := filter (\<lambda>(k, r'). k \<noteq> key) (entries s) @ [(key, r)],
                     hits := hits s + 1\<rparr>)"
  unfolding cached_get_db_data_def by (rule wrapper_hit [OF maxsize_pos assms])

lemma cached_miss_raise:
  assumes "map_of (entries s) key = None" and "get_db_data_args e key = Inl ex"
  shows "cached_get_db_data e s key = (Inl ex, s\<lparr>misses := misses s + 1\<rparr>)"
  using assms maxsize_pos by (simp add: cached_get_db_data_def lru_cache_wrapper_def)

lemma cached_miss_store:
  assumes "map_of (entries s) key = None" and "get_db_data_args e key = Inr df"
  shows "cached_get_db_data e s key =
           (Inr (next_ref s),
            s\<lparr>entries := (if maxsize \<le> length (entries s) then tl (entries s) else entries s)
                             @ [(key, next_ref s)],
              misses := misses s + 1, heap := (heap s)(next_ref s := df),
              next_ref := next_ref s + 1\<rparr>)"
  using assms maxsize_pos by (simp add: cached_get_db_data_def lru_cache_wrapper_def)

section \<open>The state a handler leaves\<close>

lemma snd_render [simp]: "snd (render e fig, s) = s"
  by simp

lemma energy_consumption_state:
  "snd (energy_consumption e s x) = snd (cached_get_db_data e s (PyStr x, None))"
  by (simp add: energy_consumption_def split: prod.splits sum.splits)

lemma energy_cost_state:
  "snd (energy_cost e s x) = snd (cached_get_db_data e s (PyStr x, None))"
  by (simp add: energy_cost_def Let_def split: prod.splits sum.splits)

lemma energy_summary_state:
  "snd (energy_summary e s n) = snd (cached_get_db_data e s (PyInt n, None))"
  by (simp add: energy_summary_def split: prod.splits sum.splits)

lemma cached_entry_kept:
  assumes "map_of (entries s) key = Some r"
  shows "map_of (entries (snd (cached_get_db_data e s key))) key = Some r
       \<and> heap (snd (cached_get_db_data e s key)) = heap s"
proof -
  have "entries (snd (cached_get_db_data e s key))
          = filter (\<lambda>(k, r'). k \<noteq> key) (entries s) @ [(key, r)]"
    by (simp add: cached_hit [OF assms])
  then have "map_of (entries (snd (cached_get_db_data e s key))) key = Some r"
    using map_of_moved [of key "entries s" r] by simp
  moreover have "heap (snd (cached_get_db_data e s key)) = heap s"
    by (simp add: cached_hit [OF assms])
  ultimately show ?thesis by simp
qed

lemma cached_heap_old:
  assumes "r < next_ref s"
  shows "heap (snd (cached_get_db_data e s key)) r = heap s r"
  unfolding cached_get_db_data_def by (rule wrapper_heap_old [OF assms])

section \<open>Keys of the cache\<close>

lemma wrapper_keys_subset:
  "fst ` set (entries (snd (lru_cache_wrapper m f s key))) \<subseteq> insert key (fst ` set (entries s))"
proof -
  have t: "set (tl (entries s)) \<subseteq> set (entries s)" by (cases "entries s") auto
  show ?thesis
    using t by (auto simp: lru_cache_wrapper_def split: option.splits sum.splits if_splits)
qed

lemma wrapper_other_key_absent:
  assumes "map_of (entries s) k = None" and "key \<noteq> k"
  shows "map_of (entries (snd (lru_cache_wrapper m f s key))) k = None"
proof -
  have "k \<notin> fst ` set (entries s)" using assms(1) by (metis map_of_eq_None_iff)
  then have "k \<notin> fst ` set (entries (snd (lru_cache_wrapper m f s key)))"
    using wrapper_keys_subset [of m f s key] assms(2) by auto
  then show ?thesis by (metis map_of_eq_None_iff)
qed

lemma cached_other_key_absent:
  assumes "map_of (entries s) k = None" and "key \<noteq> k"
  shows "map_of (entries (snd (cached_get_db_data e s key))) k = None"
  unfolding cached_get_db_data_def by (rule wrapper_other_key_absent [OF assms])

lemma cached_miss_counts:
  assumes "map_of (entries s) key = None"
  shows "misses (snd (cached_get_db_data e s key)) = misses s + 1
       \<and> hits (snd (cached_get_db_data e s key)) = hits s"
proof (cases "get_db_data_args e key")
  case (Inl ex)
  show ?thesis by (simp add: cached_miss_raise [OF assms Inl])
next
  case (Inr df)
  show ?thesis by (simp add: cached_miss_store [OF assms Inr])
qed

lemma wrapper_last:
  assumes "0 < m" and "fst (lru_cache_wrapper m f s key) = Inr r"
  shows "entries (snd (lru_cache_wrapper m f s key)) \<noteq> []
       \<and> fst (last (entries (snd (lru_cache_wrapper m f s key)))) = key"
  using assms by (auto simp: lru_cache_wrapper_def split: option.splits sum.splits)

lemma wrapper_keeps_last:
  assumes "2 \<le> m" and "entries s \<noteq> []"
  shows "fst (last (entries s)) \<in> fst ` set (entries (snd (lru_cache_wrapper m f s key)))"
proof -
  let ?es = "entries s"
  have m0: "0 < m" using assms(1) by simp
  have in_es: "last ?es \<in> set ?es" using assms(2) by simp
  show ?thesis
  proof (cases "map_of ?es key")
    case (Some r)
    have e: "entries (snd (lru_cache_wrapper m f s key))
               = filter (\<lambda>(k, r'). k \<noteq> key) ?es @ [(key, r)]"
      by (simp add: wrapper_hit [OF m0 Some])
    show ?thesis
    proof (cases "fst (last ?es) = key")
      case True
      then show ?thesis unfolding e by simp
    next
      case False
      then have "last ?es \<in> set (filter (\<lambda>(k, r'). k \<noteq> key) ?es)"
        using in_es by (auto simp: case_prod_beta)
      then have "fst (last ?es) \<in> fst ` set (filter (\<lambda>(k, r'). k \<noteq> key) ?es)"
        by (rule imageI)
      then show ?thesis unfolding e by simp
    qed
  next
    case None
    show ?thesis
    proof (cases "f key")
      case (Inl ex)
      have "entries (snd (lru_cache_wrapper m f s key)) = ?es"
        using wrapper_miss_raise [of m s key f ex] m0 None Inl by simp
      then show ?thesis using in_es by simp
    next
      case (Inr df)
      have e: "entries (snd (lru_cache_wrapper m f s key))
                 = (if m \<le> length ?es then tl ?es else ?es) @ [(key, next_ref s)]"
        using wrapper_miss_store [of m s key f df] m0 None Inr by simp
      have "last ?es \<in> set (if m \<le> length ?es then tl ?es else ?es)"
      proof (cases "m \<le> length ?es")
        case True
        then have "tl ?es \<noteq> []" using assms(1) by (cases ?es; cases "tl ?es") auto
        then obtain a b bs where es: "?es = a # b # bs"
          by (cases ?es; cases "tl ?es") auto
        have "last (a # b # bs) \<in> set (b # bs)" using last_in_set [of "b # bs"] by simp
        then show ?thesis using True unfolding es by simp
      next
        case False
        then show ?thesis using in_es by simp
      qed
      then have "fst (last ?es) \<in> fst ` set (if m \<le> length ?es then tl ?es else ?es)"
        by (rule imageI)
      then show ?thesis unfolding e by simp
    qed
  qed
qed

lemma energy_consumption_Inr:
  assumes "fst (energy_consumption e s x) = Inr fig"
  shows "\<exists>r. fst (cached_get_db_data e s (PyStr x, None)) = Inr r"
  using assms
  by (cases "cached_get_db_data e s (PyStr x, None)")
     (auto simp: energy_consumption_def split: sum.splits)

lemma energy_summary_Inr:
  assumes "fst (energy_summary e s n) = Inr fig"
  shows "\<exists>r. fst (cached_get_db_data e s (PyInt n, None)) = Inr r"
  using assms
  by (cases "cached_get_db_data e s (PyInt n, None)")
     (auto simp: energy_summary_def split: sum.splits)

section \<open>The order of the cache\<close>

lemma lru_run_append: "lru_run m s (cs @ ds) = lru_run m (lru_run m s cs) ds"
  by (induction cs arbitrary: s) simp_all

lemma remdups_snoc: "remdups (xs @ [x]) = removeAll x (remdups xs) @ [x]"
  by (induction xs) auto

lemma map_fst_filter_key:
  "map fst (filter (\<lambda>(k', r'). k' \<noteq> k) es) = removeAll k (map fst es)"
  by (induction es) auto

lemma wrapper_keys_step:
  assumes "0 < m" and "f k = Inr df"
  shows "map fst (entries (snd (lru_cache_wrapper m f s k)))
           = (if k \<in> set (map fst (entries s)) then removeAll k (map fst (entries s)) @ [k]
              else (if m \<le> length (map fst (entries s)) then tl (map fst (entries s))
                    else map fst (entries s)) @ [k])"
proof (cases "map_of (entries s) k")
  case None
  then have "k \<notin> set (map fst (entries s))" by (simp add: map_of_eq_None_iff)
  then show ?thesis
    using wrapper_miss_store [of m s k f df] assms None by (simp add: map_tl)
next
  case (Some r)
  then have "k \<in> set (map fst (entries s))" by (metis map_of_eq_None_iff option.distinct(1) set_map)
  then show ?thesis
    using wrapper_hit [OF assms(1) Some, of f] by (simp add: map_fst_filter_key)
qed

lemma length_removeAll_distinct:
  "distinct xs \<Longrightarrow> x \<in> set xs \<Longrightarrow> length (removeAll x xs) = length xs - 1"
  by (simp add: distinct_remove1_removeAll [symmetric] length_remove1)

lemma lastn_touch_hit:
  assumes "distinct R" and "k \<in> set (drop (length R - m) R)"
  shows "drop (length (removeAll k R @ [k]) - m) (removeAll k R @ [k])
           = removeAll k (drop (length R - m) R) @ [k]"
proof -
  define n where "n = length R - m"
  define P where "P = take n R"
  define K where "K = drop n R"
  have R: "R = P @ K" by (simp add: P_def K_def)
  have kK: "k \<in> set K" using assms(2) by (simp add: K_def n_def)
  have dK: "distinct K" using assms(1) by (simp add: K_def)
  have kP: "k \<notin> set P" using assms(1) kK unfolding R by auto
  have rem: "removeAll k R = P @ removeAll k K" using kP unfolding R by simp
  have lP: "length P = n" by (simp add: P_def n_def)
  have lK: "length (removeAll k K) = length K - 1" by (rule length_removeAll_distinct [OF dK kK])
  have Kpos: "0 < length K" using kK by (cases K) auto
  have lR: "length R = n + length K" using R lP by simp
  have "length (removeAll k R @ [k]) = length R" using rem lP lK Kpos lR by simp
  then have "drop (length (removeAll k R @ [k]) - m) (removeAll k R @ [k])
               = drop n (P @ (removeAll k K @ [k]))"
    by (simp add: rem n_def)
  also have "\<dots> = removeAll k K @ [k]" using lP by simp
  finally show ?thesis by (simp add: K_def n_def)
qed

lemma lastn_touch_miss:
  assumes "distinct R" and "0 < m" and "k \<notin> set (drop (length R - m) R)"
  shows "drop (length (removeAll k R @ [k]) - m) (removeAll k R @ [k])
           = (if m \<le> length (drop (length R - m) R) then tl (drop (length R - m) R)
              else drop (length R - m) R) @ [k]"
proof -
  define n where "n = length R - m"
  define P where "P = take n R"
  define K where "K = drop n R"
  have R: "R = P @ K" by (simp add: P_def K_def)
  have kK: "k \<notin> set K" using assms(3) by (simp add: K_def n_def)
  have lP: "length P = n" by (simp add: P_def n_def)
  have lK: "length K = length R - n" by (simp add: K_def)
  show ?thesis
  proof (cases "k \<in> set R")
    case True
    then have kP: "k \<in> set P" using kK unfolding R by auto
    then have npos: "0 < n" using lP by (cases P) auto
    then have big: "m < length R" by (simp add: n_def)
    have lKm: "length K = m" using big by (simp add: lK n_def)
    have dP: "distinct P" using assms(1) unfolding R by simp
    have lrP: "length (removeAll k P) = n - 1"
      using length_removeAll_distinct [OF dP kP] lP by simp
    have rem: "removeAll k R = removeAll k P @ K" using kK unfolding R by simp
    have Kne: "K \<noteq> []" using lKm assms(2) by auto
    have "length (removeAll k R @ [k]) - m = n"
      using rem lrP lKm npos by simp
    then have "drop (length (removeAll k R @ [k]) - m) (removeAll k R @ [k])
                 = drop n (removeAll k P @ (K @ [k]))"
      by (simp add: rem)
    also have "\<dots> = drop 1 (K @ [k])" using lrP npos by simp
    also have "\<dots> = tl K @ [k]" using Kne by (cases K) simp_all
    finally show ?thesis using lKm by (simp add: K_def n_def)
  next
    case False
    then have rem: "removeAll k R = R" by simp
    show ?thesis
    proof (cases "m \<le> length R")
      case True
      then have lKm: "length K = m" by (simp add: lK n_def)
      have "length (R @ [k]) - m = Suc n" using True by (simp add: n_def)
      then have "drop (length (removeAll k R @ [k]) - m) (removeAll k R @ [k])
                   = drop (Suc n) R @ [k]"
        using True assms(2) by (simp add: rem n_def)
      also have "drop (Suc n) R = tl (drop n R)" by (simp add: drop_Suc tl_drop)
      finally show ?thesis using lKm by (simp add: K_def n_def)
    next
      case False
      then have n0: "n = 0" by (simp add: n_def)
      have "length (R @ [k]) - m = 0" using False by simp
      then have "drop (length (removeAll k R @ [k]) - m) (removeAll k R @ [k]) = R @ [k]"
        by (simp add: rem)
      then show ?thesis using False n0 by (simp add: n_def)
    qed
  qed
qed

lemma lru_keys_step:
  assumes "0 < m" and "f k = Inr df" and "distinct R"
    and "map fst (entries s) = drop (length R - m) R"
  shows "map fst (entries (snd (lru_cache_wrapper m f s k)))
           = drop (length (removeAll k R @ [k]) - m) (removeAll k R @ [k])"
proof (cases "k \<in> set (drop (length R - m) R)")
  case True
  have "map fst (entries (snd (lru_cache_wrapper m f s k)))
          = removeAll k (drop (length R - m) R) @ [k]"
    using wrapper_keys_step [where m=m and f=f and k=k and df=df and s=s] assms(1,2) True
    by (simp add: assms(4))
  also have "\<dots> = drop (length (removeAll k R @ [k]) - m) (removeAll k R @ [k])"
    by (rule lastn_touch_hit [OF assms(3) True, symmetric])
  finally show ?thesis .
next
  case False
  have "map fst (entries (snd (lru_cache_wrapper m f s k)))
          = (if m \<le> length (drop (length R - m) R) then tl (drop (length R - m) R)
              else drop (length R - m) R) @ [k]"
    using wrapper_keys_step [where m=m and f=f and k=k and df=df and s=s] assms(1,2) False
    by (simp add: assms(4))
  also have "\<dots> = drop (length (removeAll k R @ [k]) - m) (removeAll k R @ [k])"
    by (rule lastn_touch_miss [OF assms(3,1) False, symmetric])
  finally show ?thesis .
qed

section \<open>Requests against a failing or an empty store\<close>

lemma show_nat_500: "show_nat 500 = ''500''"
  by (simp add: show_nat.simps digit_char_def)

lemma get_db_data_store_fails:
  assumes "read_sql e org (now e - DEFAULT_TIME_RANGE * 86400) (now e) = Inl ex"
  shows "get_db_data_args e (org, None)
           = Inl (HTTPException 500 (''Database error: '' @ str_exn ex))"
  using assms by (simp add: get_db_data_args_def get_db_data_def)

lemma get_db_data_no_rows:
  assumes "read_sql e org (now e - DEFAULT_TIME_RANGE * 86400) (now e) = Inr []"
  shows "get_db_data_args e (org, None) = Inr empty_frame"
  using assms by (simp add: get_db_data_args_def get_db_data_def resampler_def)

lemma chart_title_empty:
  "chart_title empty_frame org = Inr (''Energy Consumption - {'' @ repr org @ ''}'')"
  by (simp add: chart_title_def df_empty_def empty_frame_def str_set1_def)

lemma daily_cost_empty: "daily_cost empty_frame = []"
  by (simp add: daily_cost_def keyed_costs_def empty_frame_def)

section \<open>Claims about the resampler\<close>













section \<open>Claims about the memoization table and the endpoints\<close>

text \<open>
  C7. When a call of the cached \<^verbatim>\<open>get_db_data\<close> returns a table, the cache holds that table
  under the key of the call; and in every state in which the cache holds it under that
  key, a call with the key returns the very same object, whatever the store and the clock
  are by then, without calling \<^verbatim>\<open>get_db_data\<close> (the miss counter stays, the hit counter
  goes up by one) and without touching any table of the heap.
\<close>

theorem cached_call_idempotent:
  assumes "cached_get_db_data e1 s key = (Inr r, s1)"
  shows "map_of (entries s1) key = Some r
       \<and> (\<forall>e2 s'. map_of (entries s') key = Some r \<longrightarrow>
             fst (cached_get_db_data e2 s' key) = Inr r
             \<and> heap (snd (cached_get_db_data e2 s' key)) = heap s'
             \<and> misses (snd (cached_get_db_data e2 s' key)) = misses s'
             \<and> hits (snd (cached_get_db_data e2 s' key)) = hits s' + 1)
       \<and> fst (cached_get_db_data e2 s1 key) = Inr r
       \<and> heap (snd (cached_get_db_data e2 s1 key)) r = heap s1 r"
proof -
  have held: "map_of (entries s1) key = Some r"
    using assms unfolding cached_get_db_data_def by (rule wrapper_returns_held [OF maxsize_pos])
  have again: "fst (cached_get_db_data e s' key) = Inr r
             \<and> heap (snd (cached_get_db_data e s' key)) = heap s'
             \<and> misses (snd (cached_get_db_data e s' key)) = misses s'
             \<and> hits (snd (cached_get_db_data e s' key)) = hits s' + 1"
    if "map_of (entries s') key = Some r" for e s'
    by (simp add: cached_hit [OF that])
  have a1: "\<forall>e2 s'. map_of (entries s') key = Some r \<longrightarrow>
             fst (cached_get_db_data e2 s' key) = Inr r
             \<and> heap (snd (cached_get_db_data e2 s' key)) = heap s'
             \<and> misses (snd (cached_get_db_data e2 s' key)) = misses s'
             \<and> hits (snd (cached_get_db_data e2 s' key)) = hits s' + 1"
    using again by blast
  have a2: "fst (cached_get_db_data e2 s1 key) = Inr r" using again [OF held] by blast
  have a3: "heap (snd (cached_get_db_data e2 s1 key)) r = heap s1 r" using again [OF held] by simp
  show ?thesis
    apply (intro conjI)
       apply (rule held)
      apply (rule a1)
     apply (rule a2)
    apply (rule a3)
    done
qed

lemma get_db_data_env_data: "get_db_data_args env_data (PyStr ''1'', None) = Inr df_two"
  by code_simp

lemma first_request_state:
  "cached_get_db_data env_data init_state (PyStr ''1'', None) = (Inr 0, state_one)"
proof -
  have n: "map_of (entries init_state) (PyStr ''1'', None) = None" by (simp add: init_state_def)
  show ?thesis
    unfolding cached_miss_store [OF n get_db_data_env_data]
    by (simp add: init_state_def state_one_def maxsize_def)
qed

theorem cached_call_idempotent_witness:
  "cached_get_db_data env_data init_state (PyStr ''1'', None) = (Inr 0, state_one)
   \<and> map_of (entries state_one) (PyStr ''1'', None) = Some 0
   \<and> fst (cached_get_db_data env_down state_one (PyStr ''1'', None)) = Inr 0
   \<and> heap (snd (cached_get_db_data env_down state_one (PyStr ''1'', None))) 0 = heap state_one 0"
proof -
  note t = cached_call_idempotent [OF first_request_state, of env_down]
  show ?thesis
    apply (intro conjI)
       apply (rule first_request_state)
      apply (rule t [THEN conjunct1])
     apply (rule t [THEN conjunct2, THEN conjunct2, THEN conjunct1])
    apply (rule t [THEN conjunct2, THEN conjunct2, THEN conjunct2])
    done
qed

text \<open>
  C2, as stated, fails: the cache is \<^verbatim>\<open>lru_cache\<close>, and a hit makes an entry the most
  recent one. With capacity 2, after the calls with A, B and A again, the cache holds B
  and then A (A was inserted first, as its smaller reference shows); the call with C then
  evicts B, which was inserted after A, and keeps A.
\<close>

theorem lru_evicts_later_inserted:
  "entries (lru_run 2 init_state
      [(always_empty, key_A), (always_empty, key_B), (always_empty, key_A)])
     = [(key_B, 1), (key_A, 0)]
   \<and> entries (lru_run 2 init_state
      [(always_empty, key_A), (always_empty, key_B), (always_empty, key_A), (always_empty, key_C)])
     = [(key_A, 0), (key_C, 2)]"
  by (simp add: lru_cache_wrapper_def init_state_def always_empty_def key_A_def key_B_def
      key_C_def)

text \<open>
  C2, amended. After any sequence of calls that return a table, starting from the empty
  cache, the cache of capacity \<open>m\<close> holds exactly the last \<open>m\<close> of the distinct keys called,
  in the order of their latest call; so the entry a further insertion evicts from a full
  cache, the first of the list, is the least recently used one.
\<close>

theorem lru_keeps_most_recently_used:
  assumes "0 < m" and "\<forall>c \<in> set calls. \<exists>df. fst c (snd c) = Inr df"
  shows "map fst (entries (lru_run m init_state calls))
           = drop (length (remdups (map snd calls)) - m) (remdups (map snd calls))
       \<and> (\<forall>f k df. f k = Inr df \<and> k \<notin> set (map fst (entries (lru_run m init_state calls)))
              \<and> length (entries (lru_run m init_state calls)) = m \<longrightarrow>
            map fst (entries (snd (lru_cache_wrapper m f (lru_run m init_state calls) k)))
              = tl (map fst (entries (lru_run m init_state calls))) @ [k])"
proof -
  have keys: "map fst (entries (lru_run m init_state calls))
           = drop (length (remdups (map snd calls)) - m) (remdups (map snd calls))"
    using assms(2)
  proof (induction calls rule: rev_induct)
    case Nil
    then show ?case by (simp add: init_state_def)
  next
    case (snoc c cs)
    obtain df where df: "fst c (snd c) = Inr df" using snoc.prems by auto
    have ih: "map fst (entries (lru_run m init_state cs))
           = drop (length (remdups (map snd cs)) - m) (remdups (map snd cs))"
      using snoc by simp
    have "map fst (entries (lru_run m init_state (cs @ [c])))
            = map fst (entries (snd (lru_cache_wrapper m (fst c) (lru_run m init_state cs) (snd c))))"
      by (simp add: lru_run_append)
    also have "\<dots> = drop (length (removeAll (snd c) (remdups (map snd cs)) @ [snd c]) - m)
                          (removeAll (snd c) (remdups (map snd cs)) @ [snd c])"
      using lru_keys_step [where m=m and f="fst c" and k="snd c" and df=df
          and R="remdups (map snd cs)" and s="lru_run m init_state cs"] assms(1) df ih
      by simp
    finally show ?case by (simp add: remdups_snoc)
  qed
  have step: "\<forall>f k df. f k = Inr df \<and> k \<notin> set (map fst (entries (lru_run m init_state calls)))
              \<and> length (entries (lru_run m init_state calls)) = m \<longrightarrow>
            map fst (entries (snd (lru_cache_wrapper m f (lru_run m init_state calls) k)))
              = tl (map fst (entries (lru_run m init_state calls))) @ [k]"
  proof (intro allI impI)
    fix f :: "cache_key \<Rightarrow> exn + data_frame" and k :: cache_key and df :: data_frame
    assume a: "f k = Inr df \<and> k \<notin> set (map fst (entries (lru_run m init_state calls)))
              \<and> length (entries (lru_run m init_state calls)) = m"
    show "map fst (entries (snd (lru_cache_wrapper m f (lru_run m init_state calls) k)))
              = tl (map fst (entries (lru_run m init_state calls))) @ [k]"
      using wrapper_keys_step [where m=m and f=f and k=k and df=df
          and s="lru_run m init_state calls"] assms(1) a
      by simp
  qed
  show ?thesis
    apply (intro conjI)
     apply (rule keys)
    apply (rule step)
    done
qed

theorem lru_keeps_most_recently_used_witness:
  "(0::nat) < 2
   \<and> fst (always_empty, key_A) (snd (always_empty, key_A)) = Inr empty_frame
   \<and> map fst (entries (lru_run 2 init_state
        [(always_empty, key_A), (always_empty, key_B), (always_empty, key_C)]))
       = [key_B, key_C]
   \<and> map_of (entries (lru_run 2 init_state
        [(always_empty, key_A), (always_empty, key_B), (always_empty, key_C)])) key_A = None
   \<and> misses (lru_run 2 init_state
        [(always_empty, key_A), (always_empty, key_B), (always_empty, key_C),
         (always_empty, key_B), (always_empty, key_C)]) = 3
   \<and> hits (lru_run 2 init_state
        [(always_empty, key_A), (always_empty, key_B), (always_empty, key_C),
         (always_empty, key_B), (always_empty, key_C)]) = 2"
proof -
  have m: "(0::nat) < 2" by simp
  have ok: "\<forall>c \<in> set [(always_empty, key_A), (always_empty, key_B), (always_empty, key_C)].
              \<exists>df. fst c (snd c) = Inr df"
    by (simp add: always_empty_def)
  have a: "fst (always_empty, key_A) (snd (always_empty, key_A)) = Inr empty_frame"
    by (simp add: always_empty_def)
  note t = lru_keeps_most_recently_used [OF m ok, THEN conjunct1]
  have k: "map fst (entries (lru_run 2 init_state
        [(always_empty, key_A), (always_empty, key_B), (always_empty, key_C)]))
       = [key_B, key_C]"
    unfolding t by (simp add: key_A_def key_B_def key_C_def)
  have gone: "map_of (entries (lru_run 2 init_state
        [(always_empty, key_A), (always_empty, key_B), (always_empty, key_C)])) key_A = None"
    by (simp add: lru_cache_wrapper_def init_state_def always_empty_def key_A_def key_B_def
        key_C_def)
  have ms: "misses (lru_run 2 init_state
        [(always_empty, key_A), (always_empty, key_B), (always_empty, key_C),
         (always_empty, key_B), (always_empty, key_C)]) = 3"
    by (simp add: lru_cache_wrapper_def init_state_def always_empty_def key_A_def key_B_def
        key_C_def)
  have hs: "hits (lru_run 2 init_state
        [(always_empty, key_A), (always_empty, key_B), (always_empty, key_C),
         (always_empty, key_B), (always_empty, key_C)]) = 2"
    by (simp add: lru_cache_wrapper_def init_state_def always_empty_def key_A_def key_B_def
        key_C_def)
  show ?thesis
    apply (intro conjI)
         apply (rule m)
        apply (rule a)
       apply (rule k)
      apply (rule gone)
     apply (rule ms)
    apply (rule hs)
    done
qed

text \<open>
  C8. \<^verbatim>\<open>energy_consumption\<close> and \<^verbatim>\<open>energy_cost\<close> look the table up under the \<^verbatim>\<open>str\<close> key,
  \<^verbatim>\<open>energy_summary\<close> under the \<^verbatim>\<open>int\<close> key. When the cache has no entry under the \<^verbatim>\<open>int\<close>
  key, a request to the energy or cost endpoint creates none, and a request to the summary
  endpoint after it is a miss that calls \<^verbatim>\<open>get_db_data\<close> again; the same holds with the
  roles exchanged. When a request to the energy endpoint and then one to the summary
  endpoint succeed, the cache holds an entry under each of the two keys.
\<close>

theorem cache_keys_type_sensitive:
  "(map_of (entries s) (PyInt n, None) = None \<longrightarrow>
        map_of (entries (snd (energy_consumption e s x))) (PyInt n, None) = None
      \<and> map_of (entries (snd (energy_cost e s x))) (PyInt n, None) = None
      \<and> misses (snd (energy_summary e' (snd (energy_consumption e s x)) n))
          = misses (snd (energy_consumption e s x)) + 1
      \<and> misses (snd (energy_summary e' (snd (energy_cost e s x)) n))
          = misses (snd (energy_cost e s x)) + 1)
   \<and> (map_of (entries s) (PyStr x, None) = None \<longrightarrow>
        map_of (entries (snd (energy_summary e s n))) (PyStr x, None) = None
      \<and> misses (snd (energy_consumption e' (snd (energy_summary e s n)) x))
          = misses (snd (energy_summary e s n)) + 1
      \<and> misses (snd (energy_cost e' (snd (energy_summary e s n)) x))
          = misses (snd (energy_summary e s n)) + 1)
   \<and> (fst (energy_consumption e s x) = Inr fig
        \<and> fst (energy_summary e' (snd (energy_consumption e s x)) n) = Inr fig' \<longrightarrow>
        (PyStr x, None) \<in> fst ` set (entries (snd (energy_summary e' (snd (energy_consumption e s x)) n)))
      \<and> (PyInt n, None) \<in> fst ` set (entries (snd (energy_summary e' (snd (energy_consumption e s x)) n)))
      \<and> (PyStr x, None :: int option) \<noteq> (PyInt n, None))"
proof -
  let ?ks = "(PyStr x, None :: int option)" and ?ki = "(PyInt n, None :: int option)"
  have ne: "?ks \<noteq> ?ki" by simp
  have a: "map_of (entries s) ?ki = None \<longrightarrow>
        map_of (entries (snd (energy_consumption e s x))) ?ki = None
      \<and> map_of (entries (snd (energy_cost e s x))) ?ki = None
      \<and> misses (snd (energy_summary e' (snd (energy_consumption e s x)) n))
          = misses (snd (energy_consumption e s x)) + 1
      \<and> misses (snd (energy_summary e' (snd (energy_cost e s x)) n))
          = misses (snd (energy_cost e s x)) + 1"
  proof
    assume n: "map_of (entries s) ?ki = None"
    have k: "map_of (entries (snd (cached_get_db_data e s ?ks))) ?ki = None"
      by (rule cached_other_key_absent [OF n ne])
    show "map_of (entries (snd (energy_consumption e s x))) ?ki = None
      \<and> map_of (entries (snd (energy_cost e s x))) ?ki = None
      \<and> misses (snd (energy_summary e' (snd (energy_consumption e s x)) n))
          = misses (snd (energy_consumption e s x)) + 1
      \<and> misses (snd (energy_summary e' (snd (energy_cost e s x)) n))
          = misses (snd (energy_cost e s x)) + 1"
      using k cached_miss_counts [OF k, of e']
      by (simp add: energy_consumption_state energy_cost_state energy_summary_state)
  qed
  have b: "map_of (entries s) ?ks = None \<longrightarrow>
        map_of (entries (snd (energy_summary e s n))) ?ks = None
      \<and> misses (snd (energy_consumption e' (snd (energy_summary e s n)) x))
          = misses (snd (energy_summary e s n)) + 1
      \<and> misses (snd (energy_cost e' (snd (energy_summary e s n)) x))
          = misses (snd (energy_summary e s n)) + 1"
  proof
    assume n: "map_of (entries s) ?ks = None"
    have k: "map_of (entries (snd (cached_get_db_data e s ?ki))) ?ks = None"
      by (rule cached_other_key_absent [OF n ne [symmetric]])
    show "map_of (entries (snd (energy_summary e s n))) ?ks = None
      \<and> misses (snd (energy_consumption e' (snd (energy_summary e s n)) x))
          = misses (snd (energy_summary e s n)) + 1
      \<and> misses (snd (energy_cost e' (snd (energy_summary e s n)) x))
          = misses (snd (energy_summary e s n)) + 1"
      using k cached_miss_counts [OF k, of e']
      by (simp add: energy_consumption_state energy_cost_state energy_summary_state)
  qed
  have c: "fst (energy_consumption e s x) = Inr fig
        \<and> fst (energy_summary e' (snd (energy_consumption e s x)) n) = Inr fig' \<longrightarrow>
        ?ks \<in> fst ` set (entries (snd (energy_summary e' (snd (energy_consumption e s x)) n)))
      \<and> ?ki \<in> fst ` set (entries (snd (energy_summary e' (snd (energy_consumption e s x)) n)))
      \<and> ?ks \<noteq> ?ki"
  proof
    assume ok: "fst (energy_consumption e s x) = Inr fig
        \<and> fst (energy_summary e' (snd (energy_consumption e s x)) n) = Inr fig'"
    let ?s1 = "snd (cached_get_db_data e s ?ks)"
    let ?s2 = "snd (cached_get_db_data e' ?s1 ?ki)"
    obtain r1 where r1: "fst (cached_get_db_data e s ?ks) = Inr r1"
      using ok energy_consumption_Inr by blast
    obtain r2 where r2: "fst (cached_get_db_data e' ?s1 ?ki) = Inr r2"
      using ok energy_summary_Inr [of e' "snd (energy_consumption e s x)" n fig']
      by (auto simp: energy_consumption_state)
    have l1: "entries ?s1 \<noteq> [] \<and> fst (last (entries ?s1)) = ?ks"
      using wrapper_last [OF maxsize_pos, of "get_db_data_args e" s ?ks r1] r1
      by (simp add: cached_get_db_data_def)
    have two: "2 \<le> maxsize" by (simp add: maxsize_def)
    have "fst (last (entries ?s1)) \<in> fst ` set (entries ?s2)"
      using wrapper_keeps_last [OF two, of ?s1 "get_db_data_args e'" ?ki] l1
      by (simp add: cached_get_db_data_def)
    then have p1: "?ks \<in> fst ` set (entries ?s2)" using l1 by simp
    have l2: "entries ?s2 \<noteq> [] \<and> fst (last (entries ?s2)) = ?ki"
      using wrapper_last [OF maxsize_pos, of "get_db_data_args e'" ?s1 ?ki r2] r2
      by (simp add: cached_get_db_data_def)
    then have "last (entries ?s2) \<in> set (entries ?s2)" by simp
    then have p2: "?ki \<in> fst ` set (entries ?s2)" using l2 by (metis imageI)
    show "?ks \<in> fst ` set (entries (snd (energy_summary e' (snd (energy_consumption e s x)) n)))
      \<and> ?ki \<in> fst ` set (entries (snd (energy_summary e' (snd (energy_consumption e s x)) n)))
      \<and> ?ks \<noteq> ?ki"
      using p1 p2 by (simp add: energy_consumption_state energy_summary_state)
  qed
  show ?thesis
    apply (intro conjI)
      apply (rule a)
     apply (rule b)
    apply (rule c)
    done
qed

theorem cache_keys_type_sensitive_witness:
  "map_of (entries init_state) (PyInt 1, None) = None
   \<and> map_of (entries (snd (energy_consumption env_data init_state ''1''))) (PyInt 1, None) = None
   \<and> misses (snd (energy_summary env_data (snd (energy_consumption env_data init_state ''1'')) 1))
       = misses (snd (energy_consumption env_data init_state ''1'')) + 1
   \<and> misses (snd (energy_consumption env_data init_state ''1'')) = 1"
proof -
  have h: "map_of (entries init_state) (PyInt 1, None) = None" by (simp add: init_state_def)
  note t = cache_keys_type_sensitive
    [of init_state 1 env_data "''1''" env_data, THEN conjunct1, rule_format, OF h]
  have m: "misses (snd (energy_consumption env_data init_state ''1'')) = 1"
    by (simp add: energy_consumption_state first_request_state state_one_def)
  show ?thesis
    apply (intro conjI)
       apply (rule h)
      apply (rule t [THEN conjunct1])
     apply (rule t [THEN conjunct2, THEN conjunct2, THEN conjunct1])
    apply (rule m)
    done
qed

text \<open>
  C10. A handler whose key is in the cache leaves the entry pointing to the same table
  and leaves every table of the heap as it was; and whether or not the key is cached, no
  handler changes a table that existed before the request (a miss only adds a new table).
  The daily costs of \<^verbatim>\<open>energy_cost\<close> are a value computed from the cached table, not
  written to it.
\<close>

theorem handlers_leave_cached_table:
  "(map_of (entries s) (PyStr x, None) = Some r \<longrightarrow>
      map_of (entries (snd (energy_consumption e s x))) (PyStr x, None) = Some r
      \<and> heap (snd (energy_consumption e s x)) = heap s
      \<and> map_of (entries (snd (energy_cost e s x))) (PyStr x, None) = Some r
      \<and> heap (snd (energy_cost e s x)) = heap s)
   \<and> (map_of (entries s) (PyInt n, None) = Some r \<longrightarrow>
      map_of (entries (snd (energy_summary e s n))) (PyInt n, None) = Some r
      \<and> heap (snd (energy_summary e s n)) = heap s)
   \<and> (\<forall>r'. r' < next_ref s \<longrightarrow>
         heap (snd (energy_consumption e s x)) r' = heap s r'
         \<and> heap (snd (energy_cost e s x)) r' = heap s r'
         \<and> heap (snd (energy_summary e s n)) r' = heap s r')"
proof -
  have a: "map_of (entries s) (PyStr x, None) = Some r \<longrightarrow>
      map_of (entries (snd (energy_consumption e s x))) (PyStr x, None) = Some r
      \<and> heap (snd (energy_consumption e s x)) = heap s
      \<and> map_of (entries (snd (energy_cost e s x))) (PyStr x, None) = Some r
      \<and> heap (snd (energy_cost e s x)) = heap s"
    using cached_entry_kept [of s "(PyStr x, None)" r e]
    by (simp add: energy_consumption_state energy_cost_state)
  have b: "map_of (entries s) (PyInt n, None) = Some r \<longrightarrow>
      map_of (entries (snd (energy_summary e s n))) (PyInt n, None) = Some r
      \<and> heap (snd (energy_summary e s n)) = heap s"
    using cached_entry_kept [of s "(PyInt n, None)" r e]
    by (simp add: energy_summary_state)
  have c: "\<forall>r'. r' < next_ref s \<longrightarrow>
         heap (snd (energy_consumption e s x)) r' = heap s r'
         \<and> heap (snd (energy_cost e s x)) r' = heap s r'
         \<and> heap (snd (energy_summary e s n)) r' = heap s r'"
    by (simp add: energy_consumption_state energy_cost_state energy_summary_state cached_heap_old)
  show ?thesis
    apply (intro conjI)
      apply (rule a)
     apply (rule b)
    apply (rule c)
    done
qed

theorem handlers_leave_cached_table_witness:
  "map_of (entries state_one) (PyStr ''1'', None) = Some 0
   \<and> heap state_one 0 = df_two
   \<and> map_of (entries (snd (energy_cost env_data state_one ''1''))) (PyStr ''1'', None) = Some 0
   \<and> heap (snd (energy_cost env_data state_one ''1'')) = heap state_one"
proof -
  have h: "map_of (entries state_one) (PyStr ''1'', None) = Some 0" by (simp add: state_one_def)
  have d: "heap state_one 0 = df_two" by (simp add: state_one_def)
  note t = handlers_leave_cached_table
    [of state_one "''1''" 0 env_data 1, THEN conjunct1, rule_format, OF h]
  show ?thesis
    apply (intro conjI)
       apply (rule h)
      apply (rule d)
     apply (rule t [THEN conjunct2, THEN conjunct2, THEN conjunct1])
    apply (rule t [THEN conjunct2, THEN conjunct2, THEN conjunct2])
    done
qed

text \<open>
  C1. What the code does when the store fails: \<^verbatim>\<open>get_db_data\<close> raises
  \<^verbatim>\<open>HTTPException(500, "Database error: ...")\<close>, but the call stands inside the handler's
  own \<^verbatim>\<open>try\<close>, whose \<^verbatim>\<open>except Exception\<close> catches that exception too and raises
  \<^verbatim>\<open>HTTPException(400, str(e))\<close>. So each endpoint answers a failed query with status 400
  and the detail \<^verbatim>\<open>500: Database error: ...\<close>, after one call of \<^verbatim>\<open>get_db_data\<close> (the miss
  counter goes up by one) and with the cache as it was.
\<close>

theorem store_failure_status:
  assumes "\<forall>org. read_sql e org (now e - DEFAULT_TIME_RANGE * 86400) (now e) = Inl ex"
    and "map_of (entries s) (PyStr x, None) = None"
    and "map_of (entries s) (PyInt n, None) = None"
  shows "energy_consumption e s x
           = (Inl (HTTPException 400 (''500: Database error: '' @ str_exn ex)),
              s\<lparr>misses := misses s + 1\<rparr>)
       \<and> energy_cost e s x
           = (Inl (HTTPException 400 (''500: Database error: '' @ str_exn ex)),
              s\<lparr>misses := misses s + 1\<rparr>)
       \<and> energy_summary e s n
           = (Inl (HTTPException 400 (''500: Database error: '' @ str_exn ex)),
              s\<lparr>misses := misses s + 1\<rparr>)
       \<and> status_code (fst (energy_consumption e s x)) = 400
       \<and> status_code (fst (energy_cost e s x)) = 400
       \<and> status_code (fst (energy_summary e s n)) = 400"
proof -
  have f: "get_db_data_args e (org, None)
           = Inl (HTTPException 500 (''Database error: '' @ str_exn ex))" for org
    using assms(1) by (intro get_db_data_store_fails) simp
  have cs: "cached_get_db_data e s (PyStr x, None)
           = (Inl (HTTPException 500 (''Database error: '' @ str_exn ex)), s\<lparr>misses := misses s + 1\<rparr>)"
    by (rule cached_miss_raise [OF assms(2) f])
  have ci: "cached_get_db_data e s (PyInt n, None)
           = (Inl (HTTPException 500 (''Database error: '' @ str_exn ex)), s\<lparr>misses := misses s + 1\<rparr>)"
    by (rule cached_miss_raise [OF assms(3) f])
  have a: "energy_consumption e s x
           = (Inl (HTTPException 400 (''500: Database error: '' @ str_exn ex)),
              s\<lparr>misses := misses s + 1\<rparr>)"
    by (simp add: energy_consumption_def cs bad_request_def show_nat_500)
  have b: "energy_cost e s x
           = (Inl (HTTPException 400 (''500: Database error: '' @ str_exn ex)),
              s\<lparr>misses := misses s + 1\<rparr>)"
    by (simp add: energy_cost_def cs bad_request_def show_nat_500)
  have c: "energy_summary e s n
           = (Inl (HTTPException 400 (''500: Database error: '' @ str_exn ex)),
              s\<lparr>misses := misses s + 1\<rparr>)"
    by (simp add: energy_summary_def ci bad_request_def show_nat_500)
  show ?thesis
    apply (intro conjI)
         apply (rule a)
        apply (rule b)
       apply (rule c)
      apply (simp add: a)
     apply (simp add: b)
    apply (simp add: c)
    done
qed

theorem store_failure_status_witness:
  "read_sql env_down (PyStr ''1'') (now env_down - DEFAULT_TIME_RANGE * 86400) (now env_down)
     = Inl (DataAccessError ''connection refused'')
   \<and> map_of (entries init_state) (PyStr ''1'', None) = None
   \<and> map_of (entries init_state) (PyInt 1, None) = None
   \<and> energy_consumption env_down init_state ''1''
       = (Inl (HTTPException 400 (''500: Database error: ''
                                    @ str_exn (DataAccessError ''connection refused''))),
          init_state\<lparr>misses := misses init_state + 1\<rparr>)
   \<and> status_code (fst (energy_consumption env_down init_state ''1'')) = 400"
proof -
  have r: "\<forall>org. read_sql env_down org (now env_down - DEFAULT_TIME_RANGE * 86400) (now env_down)
     = Inl (DataAccessError ''connection refused'')"
    by (simp add: env_down_def)
  have h1: "map_of (entries init_state) (PyStr ''1'', None) = None" by (simp add: init_state_def)
  have h2: "map_of (entries init_state) (PyInt 1, None) = None" by (simp add: init_state_def)
  note t = store_failure_status [OF r h1 h2]
  show ?thesis
    apply (intro conjI)
        apply (rule r [rule_format])
       apply (rule h1)
      apply (rule h2)
     apply (rule t [THEN conjunct1])
    apply (rule t [THEN conjunct2, THEN conjunct2, THEN conjunct2, THEN conjunct1])
    done
qed

text \<open>
  C3. What the code does for an organization without records in the range, when the chart
  library builds the figure: \<^verbatim>\<open>get_db_data\<close> returns the empty table and each endpoint
  answers with status 200, but the braces around \<^verbatim>\<open>org_id\<close> inside the replacement field of
  the f-string make a set, so the title ends in the text of the set \<^verbatim>\<open>{org_id}\<close>: the
  \<^verbatim>\<open>repr\<close> of the identifier inside braces, not the identifier.
\<close>

theorem empty_table_chart_title:
  assumes "\<forall>org. read_sql e org (now e - DEFAULT_TIME_RANGE * 86400) (now e) = Inr []"
    and "\<forall>fig. px_raises e fig = None"
    and "map_of (entries s) (PyStr x, None) = None"
    and "map_of (entries s) (PyInt n, None) = None"
  shows "get_db_data e (PyStr x) DEFAULT_TIME_RANGE = Inr empty_frame
       \<and> fst (energy_consumption e s x)
           = Inr \<lparr>fig_kind = Line, fig_title = ''Energy Consumption - {'' @ repr_str x @ ''}'',
                  fig_x = [], fig_y = [], fig_color = [], fig_size = []\<rparr>
       \<and> fst (energy_cost e s x)
           = Inr \<lparr>fig_kind = Bar, fig_title = ''Energy Consumption - {'' @ repr_str x @ ''}'',
                  fig_x = [], fig_y = [], fig_color = [], fig_size = []\<rparr>
       \<and> fst (energy_summary e s n)
           = Inr \<lparr>fig_kind = Scatter, fig_title = ''Energy Consumption - {'' @ show_int n @ ''}'',
                  fig_x = [], fig_y = [], fig_color = [], fig_size = []\<rparr>
       \<and> status_code (fst (energy_consumption e s x)) = 200
       \<and> status_code (fst (energy_cost e s x)) = 200
       \<and> status_code (fst (energy_summary e s n)) = 200"
proof -
  have f: "get_db_data_args e (org, None) = Inr empty_frame" for org
    using assms(1) by (intro get_db_data_no_rows) simp
  have g: "get_db_data e (PyStr x) DEFAULT_TIME_RANGE = Inr empty_frame"
    using f [of "PyStr x"] by (simp add: get_db_data_args_def)
  note cs = cached_miss_store [OF assms(3) f]
  note ci = cached_miss_store [OF assms(4) f]
  have a: "fst (energy_consumption e s x)
           = Inr \<lparr>fig_kind = Line, fig_title = ''Energy Consumption - {'' @ repr_str x @ ''}'',
                  fig_x = [], fig_y = [], fig_color = [], fig_size = []\<rparr>"
    using assms(2) by (simp add: energy_consumption_def cs chart_title_empty render_def)
      (simp add: empty_frame_def)
  have b: "fst (energy_cost e s x)
           = Inr \<lparr>fig_kind = Bar, fig_title = ''Energy Consumption - {'' @ repr_str x @ ''}'',
                  fig_x = [], fig_y = [], fig_color = [], fig_size = []\<rparr>"
    using assms(2)
    by (simp add: energy_cost_def cs chart_title_empty render_def daily_cost_empty)
  have c: "fst (energy_summary e s n)
           = Inr \<lparr>fig_kind = Scatter, fig_title = ''Energy Consumption - {'' @ show_int n @ ''}'',
                  fig_x = [], fig_y = [], fig_color = [], fig_size = []\<rparr>"
    using assms(2) by (simp add: energy_summary_def ci chart_title_empty render_def)
      (simp add: empty_frame_def)
  show ?thesis
    apply (intro conjI)
          apply (rule g)
         apply (rule a)
        apply (rule b)
       apply (rule c)
      apply (simp add: a)
     apply (simp add: b)
    apply (simp add: c)
    done
qed

lemma repr_str_42: "repr_str ''42'' = [CHR 0x27, CHR ''4'', CHR ''2'', CHR 0x27]"
  by code_simp

theorem empty_table_chart_title_witness:
  "read_sql env_none (PyStr ''42'') (now env_none - DEFAULT_TIME_RANGE * 86400) (now env_none) = Inr []
   \<and> px_raises env_none \<lparr>fig_kind = Line, fig_title = [], fig_x = [], fig_y = [], fig_color = [],
                          fig_size = []\<rparr> = None
   \<and> map_of (entries init_state) (PyStr ''42'', None) = None
   \<and> map_of (entries init_state) (PyInt 42, None) = None
   \<and> fst (energy_consumption env_none init_state ''42'')
           = Inr \<lparr>fig_kind = Line, fig_title = ''Energy Consumption - {'' @ repr_str ''42'' @ ''}'',
                  fig_x = [], fig_y = [], fig_color = [], fig_size = []\<rparr>
   \<and> ''Energy Consumption - {'' @ repr_str ''42'' @ ''}''
       = ''Energy Consumption - {'' @ [CHR 0x27] @ ''42'' @ [CHR 0x27] @ ''}''
   \<and> ''Energy Consumption - {'' @ repr_str ''42'' @ ''}'' \<noteq> ''Energy Consumption - 42''"
proof -
  have r: "\<forall>org. read_sql env_none org (now env_none - DEFAULT_TIME_RANGE * 86400) (now env_none) = Inr []"
    by (simp add: env_none_def)
  have p: "\<forall>fig. px_raises env_none fig = None" by (simp add: env_none_def)
  have h1: "map_of (entries init_state) (PyStr ''42'', None) = None" by (simp add: init_state_def)
  have h2: "map_of (entries init_state) (PyInt 42, None) = None" by (simp add: init_state_def)
  note t = empty_table_chart_title [OF r p h1 h2]
  have v1: "''Energy Consumption - {'' @ repr_str ''42'' @ ''}''
       = ''Energy Consumption - {'' @ [CHR 0x27] @ ''42'' @ [CHR 0x27] @ ''}''"
    by (simp add: repr_str_42)
  have v2: "''Energy Consumption - {'' @ repr_str ''42'' @ ''}'' \<noteq> ''Energy Consumption - 42''"
    by (simp add: repr_str_42)
  show ?thesis
    apply (intro conjI)
          apply (rule r [rule_format])
         apply (rule p [rule_format])
        apply (rule h1)
       apply (rule h2)
      apply (rule t [THEN conjunct2, THEN conjunct1])
     apply (rule v1)
    apply (rule v2)
    done
qed

end
